theory Spec2Isabelle
  imports Complex_Main "HOL-Library.Multiset"
begin

section \<open>JavaScript primitives used by the sources\<close>

text \<open>
  Strings are lists of code units (here: code units below 256) and \<open>length\<close> is JavaScript's
  \<open>.length\<close>. Numbers that the sources use as indices, sizes and limits are \<open>int\<close> or \<open>nat\<close>;
  embedding components and similarity scores are \<open>real\<close>, so IEEE rounding, NaN and the
  infinities are outside the model.
\<close>

text \<open>
  \<open>String.prototype.slice(start, end)\<close> and \<open>Array.prototype.slice(start, end)\<close>: a negative
  index counts from the end, both indices are clamped to the length, and the result is empty
  when the clamped start is not before the clamped end.
\<close>

definition jsSlice :: "'a list \<Rightarrow> int \<Rightarrow> int \<Rightarrow> 'a list" where
  "jsSlice xs startIndex endIndex =
     (let len = int (length xs);
          from = (if startIndex < 0 then max (len + startIndex) 0 else min startIndex len);
          to = (if endIndex < 0 then max (len + endIndex) 0 else min endIndex len)
      in if from < to then take (nat (to - from)) (drop (nat from) xs) else [])"

text \<open>\<open>matchAt text pat k\<close>: the pattern occurs in the text at index \<open>k\<close>.\<close>

definition matchAt :: "string \<Rightarrow> string \<Rightarrow> nat \<Rightarrow> bool" where
  "matchAt text pat k = (take (length pat) (drop k text) = pat)"

text \<open>
  \<open>String.prototype.lastIndexOf(pat, fromIndex)\<close>: the largest index \<open>k\<close> with
  \<open>k \<le> min (max fromIndex 0) (length text - length pat)\<close> at which the pattern occurs,
  or \<open>-1\<close> when there is none.
\<close>

fun lastIndexFrom :: "string \<Rightarrow> string \<Rightarrow> nat \<Rightarrow> int" where
  "lastIndexFrom text pat 0 = (if matchAt text pat 0 then 0 else - 1)"
| "lastIndexFrom text pat (Suc k) =
     (if matchAt text pat (Suc k) then int (Suc k) else lastIndexFrom text pat k)"

definition lastIndexOf :: "string \<Rightarrow> string \<Rightarrow> int \<Rightarrow> int" where
  "lastIndexOf text pat fromIndex =
     (if length text < length pat then - 1
      else lastIndexFrom text pat
             (nat (min (max fromIndex 0) (int (length text) - int (length pat)))))"

text \<open>\<open>String.prototype.trim\<close>, with the white space code units below 256.\<close>

definition isWhiteSpace :: "char \<Rightarrow> bool" where
  "isWhiteSpace c =
     (c \<in> {CHR 0x09, CHR 0x0A, CHR 0x0B, CHR 0x0C, CHR 0x0D, CHR 0x20, CHR 0xA0})"

definition jsTrim :: "string \<Rightarrow> string" where
  "jsTrim s = rev (dropWhile isWhiteSpace (rev (dropWhile isWhiteSpace s)))"

definition startsWith :: "string \<Rightarrow> string \<Rightarrow> bool" where
  "startsWith s p = (take (length p) s = p)"

definition endsWith :: "string \<Rightarrow> string \<Rightarrow> bool" where
  "endsWith s p = (length p \<le> length s \<and> drop (length s - length p) s = p)"

text \<open>\<open>String.prototype.toLowerCase\<close> on code units below 256.\<close>

definition toLowerChar :: "char \<Rightarrow> char" where
  "toLowerChar c =
     (let n = (of_char c :: nat) in
      if (65 \<le> n \<and> n \<le> 90) \<or> (192 \<le> n \<and> n \<le> 222 \<and> n \<noteq> 215)
      then char_of (n + 32) else c)"

definition toLowerCase :: "string \<Rightarrow> string" where
  "toLowerCase s = map toLowerChar s"

text \<open>Decimal rendering of a non-negative integer inside a template literal.\<close>

fun showNat :: "nat \<Rightarrow> string" where
  "showNat n =
     (if n < 10 then [char_of (48 + n)]
      else showNat (n div 10) @ [char_of (48 + n mod 10)])"

text \<open>
  Truthiness of an optional string: \<open>undefined\<close> (\<open>None\<close>) and the empty string are falsy.
\<close>

definition truthy :: "string option \<Rightarrow> bool" where
  "truthy s = (case s of None \<Rightarrow> False | Some v \<Rightarrow> v \<noteq> [])"

section \<open>Text processing utilities (textProcessing.ts)\<close>

subsection \<open>splitTextIntoChunks\<close>

text \<open>
  The body of the \<open>while\<close> loop is split into the computation of the chunk's end index
  (\<open>chunkEnd\<close>: the search for a paragraph, sentence or word break) and of the next start
  index (\<open>nextStart\<close>: the overlap and the progress check). The paragraph break is the string
  of two line feeds. The parameters \<open>chunkSize\<close> and \<open>overlap\<close> default to 4000 and 200 in
  the source; the callers below pass these defaults explicitly.
\<close>

definition chunkEnd :: "string \<Rightarrow> int \<Rightarrow> int \<Rightarrow> int" where
  "chunkEnd text chunkSize startIndex =
     (let endIndex = startIndex + chunkSize in
      if endIndex < int (length text) then
        (let paragraphBreak = lastIndexOf text [CHR 0x0A, CHR 0x0A] endIndex;
             sentenceBreak = lastIndexOf text ''. '' endIndex;
             wordBreak = lastIndexOf text '' '' endIndex
         in if paragraphBreak > startIndex \<and> paragraphBreak > endIndex - 200
              then paragraphBreak + 2
            else if sentenceBreak > startIndex \<and> sentenceBreak > endIndex - 100
              then sentenceBreak + 2
            else if wordBreak > startIndex
              then wordBreak + 1
            else endIndex)
      else endIndex)"

definition nextStart :: "int \<Rightarrow> int \<Rightarrow> int" where
  "nextStart endIndex overlap =
     (let startIndex = endIndex - overlap in
      if startIndex \<le> 0 \<or> endIndex = startIndex then endIndex else startIndex)"

text \<open>
  The loop \<open>while (startIndex < text.length)\<close>. It may run forever, so its result is an
  option: \<open>None\<close> means that the loop never returns.
\<close>

partial_function (option) splitLoop ::
  "string \<Rightarrow> int \<Rightarrow> int \<Rightarrow> int \<Rightarrow> string list \<Rightarrow> string list option" where
  "splitLoop text chunkSize overlap startIndex chunks =
     (if startIndex < int (length text) then
        (let endIndex = chunkEnd text chunkSize startIndex in
         splitLoop text chunkSize overlap (nextStart endIndex overlap)
           (chunks @ [jsSlice text startIndex endIndex]))
      else Some chunks)"

declare splitLoop.simps [code]

definition splitTextIntoChunks :: "string \<Rightarrow> int \<Rightarrow> int \<Rightarrow> string list option" where
  "splitTextIntoChunks text chunkSize overlap =
     (if text = [] \<or> int (length text) \<le> chunkSize then Some [text]
      else splitLoop text chunkSize overlap 0 [])"

subsection \<open>estimateTokenCount\<close>

text \<open>
  The argument may be absent at run time (\<open>!text\<close> holds for \<open>undefined\<close>, \<open>null\<close> and the
  empty string); \<open>None\<close> is the absent argument. The body is \<open>Math.ceil(text.length / 4)\<close>.
\<close>

definition estimateTokenCount :: "string option \<Rightarrow> int" where
  "estimateTokenCount text =
     (case text of
        None \<Rightarrow> 0
      | Some t \<Rightarrow> if t = [] then 0 else \<lceil>real (length t) / 4\<rceil>)"

subsection \<open>createChunkTitle\<close>

definition createChunkTitle :: "string \<Rightarrow> nat \<Rightarrow> string \<Rightarrow> string" where
  "createChunkTitle chunk index filename =
     (let firstLine = jsTrim (takeWhile (\<lambda>c. c \<noteq> CHR 0x0A) chunk);
          preview = (if length firstLine > 50 then take 50 firstLine @ ''...'' else firstLine)
      in filename @ '' (chunk '' @ showNat (index + 1) @ '') - '' @ preview)"

section \<open>The content store and the similarity search (db.ts)\<close>

text \<open>
  \<open>ContextItem\<close> joins the three declarations of the interface in the sources (db.ts and
  the scrape handler have \<open>url\<close>, upload.ts has \<open>filepath\<close>); the source's field \<open>id\<close> is
  \<open>itemId\<close> here. An optional field is an option.
\<close>

record ContextItem =
  itemId :: string
  source :: string
  content :: string
  title :: "string option"
  url :: "string option"
  filepath :: "string option"
  embedding :: "real list option"
  createdAt :: string
  similarity :: "real option"

text \<open>What a \<open>throw\<close> in db.ts raises: an \<open>Error\<close> with its message, or a \<open>TypeError\<close>.\<close>

datatype jsError = Error string | TypeError string

text \<open>
  The JSON database maps keys to values; the only values the sources store are arrays of
  context items. \<open>dbInit\<close> is the constructor's initialisation of the key \<open>context\<close>.
\<close>

type_synonym db = "string \<rightharpoonup> ContextItem list"

definition dbGet :: "db \<Rightarrow> string \<Rightarrow> ContextItem list option" where
  "dbGet d key = d key"

definition dbSet :: "db \<Rightarrow> string \<Rightarrow> ContextItem list \<Rightarrow> db" where
  "dbSet d key v = d(key \<mapsto> v)"

definition dbHas :: "db \<Rightarrow> string \<Rightarrow> bool" where
  "dbHas d key = (d key \<noteq> None)"

definition dbDelete :: "db \<Rightarrow> string \<Rightarrow> db" where
  "dbDelete d key = d(key := None)"

definition dbInit :: "db \<Rightarrow> db" where
  "dbInit d = (if \<not> dbHas d ''context'' then dbSet d ''context'' [] else d)"

text \<open>The expression \<open>db.get("context") || []\<close> of the two handlers.\<close>

definition contextOrEmpty :: "db \<Rightarrow> ContextItem list" where
  "contextOrEmpty d = (case dbGet d ''context'' of None \<Rightarrow> [] | Some xs \<Rightarrow> xs)"






text \<open>The field \<open>similarity\<close> as the comparison reads it (it is set on every sorted item).\<close>

definition similarityOf :: "ContextItem \<Rightarrow> real" where
  "similarityOf item = (case similarity item of None \<Rightarrow> 0 | Some s \<Rightarrow> s)"


section \<open>Ingestion (upload.ts and the URL scrape handler)\<close>

text \<open>
  The value a rejected embedding call is caught with: an \<open>Error\<close> object with its message,
  or any other value. \<open>errorMessage\<close> is
  \<open>error instanceof Error ? error.message : "Unknown error"\<close>.
\<close>

datatype thrown = ErrorObject string | OtherValue

definition errorMessage :: "thrown \<Rightarrow> string" where
  "errorMessage err = (case err of ErrorObject msg \<Rightarrow> msg | OtherValue \<Rightarrow> ''Unknown error'')"

text \<open>
  What the handlers read from outside, per chunk index: the outcome of
  \<open>embeddings.embedQuery(chunk)\<close>, the time at which that promise settles (the callbacks of
  \<open>Promise.all\<close> resume in this order), and the values of \<open>Date.now()\<close>,
  \<open>Math.random().toString(36).substring(2, 9)\<close> and \<open>new Date().toISOString()\<close>.
\<close>

record runtime =
  embedQuery :: "nat \<Rightarrow> string \<Rightarrow> thrown + real list"
  settleTime :: "nat \<Rightarrow> nat"
  dateNow :: "nat \<Rightarrow> string"
  randomSuffix :: "nat \<Rightarrow> string"
  isoNow :: "nat \<Rightarrow> string"

definition completionOrder :: "runtime \<Rightarrow> nat \<Rightarrow> nat list" where
  "completionOrder rt n = sort_key (settleTime rt) [0..<n]"

text \<open>The object a chunk callback returns (\<open>title\<close> and \<open>error\<close> are \<open>chunkTitle\<close>, \<open>chunkError\<close>).\<close>

record ChunkResult =
  chunkIndex :: nat
  chunkTitle :: "string option"
  chunkError :: "string option"
  charCount :: nat
  tokenCount :: int

definition appendContext :: "db \<Rightarrow> ContextItem list \<Rightarrow> db" where
  "appendContext d items =
     (let existingContext = contextOrEmpty d
      in dbSet d ''context'' (existingContext @ items))"

subsection \<open>The per-file callback of the upload handler\<close>

text \<open>
  \<open>ProcessedFile\<close> is the source's type (\<open>filepath\<close> and \<open>size\<close> are \<open>uploadPath\<close> and
  \<open>fileSize\<close>); \<open>FileReport\<close> is the object the callback returns for one file (\<open>name\<close>,
  \<open>type\<close>, \<open>size\<close>, \<open>path\<close>, \<open>error\<close>, \<open>chunks\<close> carry the prefix \<open>report\<close>; an absent
  \<open>isPdfWithoutText\<close> is \<open>False\<close>).
\<close>

record ProcessedFile =
  filename :: string
  uploadPath :: string
  mimetype :: string
  fileSize :: nat

record FileReport =
  reportName :: string
  reportType :: string
  reportSize :: nat
  reportPath :: string
  reportError :: "string option"
  totalChunks :: nat
  isPdfWithoutText :: bool
  reportChunks :: "ChunkResult list option"
  failedChunks :: "ChunkResult list option"
  successfulChunks :: "nat option"

text \<open>
  The callback of \<open>textChunks.map\<close>: its result and, when the embedding call succeeded, the
  context item it appends to the store. The \<open>catch\<close> branch is the case \<open>Inl\<close>.
\<close>

definition uploadChunk ::
  "runtime \<Rightarrow> ProcessedFile \<Rightarrow> nat \<Rightarrow> nat \<Rightarrow> string \<Rightarrow> ChunkResult \<times> ContextItem option" where
  "uploadChunk rt file chunkCount index chunk =
     (let chunkTitle = (if chunkCount > 1 then createChunkTitle chunk index (filename file)
                        else filename file);
          chunkTokens = estimateTokenCount (Some chunk)
      in case embedQuery rt index chunk of
           Inr vector \<Rightarrow>
             (\<lparr>chunkIndex = index, chunkTitle = Some chunkTitle, chunkError = None,
               charCount = length chunk, tokenCount = chunkTokens\<rparr>,
              Some \<lparr>itemId = dateNow rt index @ ''-chunk-'' @ showNat index @ ''-''
                              @ randomSuffix rt index,
                    source = ''file'', content = chunk, title = Some chunkTitle, url = None,
                    filepath = Some (uploadPath file), embedding = Some vector,
                    createdAt = isoNow rt index, similarity = None\<rparr>)
         | Inl err \<Rightarrow>
             (\<lparr>chunkIndex = index, chunkTitle = None, chunkError = Some (errorMessage err),
               charCount = length chunk, tokenCount = estimateTokenCount (Some chunk)\<rparr>,
              None))"

text \<open>
  \<open>Promise.all(textChunks.map(...))\<close> and what follows it. The results are in index order;
  the store is appended to in completion order; the embedding calls are issued in index
  order, and the third component of the result lists their arguments.
\<close>

definition uploadChunks ::
  "runtime \<Rightarrow> db \<Rightarrow> ProcessedFile \<Rightarrow> string list \<Rightarrow> FileReport \<times> db \<times> string list" where
  "uploadChunks rt d file textChunks =
     (let n = length textChunks;
          chunkResults = map (\<lambda>(index, chunk). fst (uploadChunk rt file n index chunk))
                             (enumerate 0 textChunks);
          d' = foldl (\<lambda>d index.
                        case snd (uploadChunk rt file n index (textChunks ! index)) of
                          None \<Rightarrow> d
                        | Some contextItem \<Rightarrow> appendContext d [contextItem])
                     d (completionOrder rt n);
          successful = filter (\<lambda>c. \<not> truthy (chunkError c)) chunkResults;
          failed = filter (\<lambda>c. truthy (chunkError c)) chunkResults
      in (\<lparr>reportName = filename file, reportType = mimetype file, reportSize = fileSize file,
           reportPath = uploadPath file, reportError = None, totalChunks = length textChunks,
           isPdfWithoutText = False, reportChunks = Some successful,
           failedChunks = (if length failed > 0 then Some failed else None),
           successfulChunks = Some (length successful)\<rparr>,
          d', textChunks))"

definition errorReport :: "ProcessedFile \<Rightarrow> string \<Rightarrow> bool \<Rightarrow> FileReport" where
  "errorReport file msg pdfWithoutText =
     \<lparr>reportName = filename file, reportType = mimetype file, reportSize = fileSize file,
      reportPath = uploadPath file, reportError = Some msg, totalChunks = 0,
      isPdfWithoutText = pdfWithoutText, reportChunks = None, failedChunks = None,
      successfulChunks = None\<rparr>"

text \<open>
  The callback of \<open>files.map\<close>, from the result \<open>fileContent\<close> of \<open>readFileContent\<close> on: the
  checks for empty text and for the two error prefixes, the token estimate, the chunking and
  the chunk processing. The result is the report, the store and the embedding calls made;
  \<open>None\<close> means that the chunker never returns.
\<close>

definition processFile ::
  "runtime \<Rightarrow> db \<Rightarrow> ProcessedFile \<Rightarrow> string \<Rightarrow> (FileReport \<times> db \<times> string list) option" where
  "processFile rt d file fileContent =
     (if fileContent = [] \<or> jsTrim fileContent = [] then
        (if mimetype file = ''application/pdf'' \<or> endsWith (toLowerCase (uploadPath file)) ''.pdf''
         then Some (errorReport file
                ''This PDF might be image-only or scanned. No text content could be extracted.'' True,
                d, [])
         else Some (errorReport file ''Could not extract text content from this file'' False, d, []))
      else if startsWith fileContent ''[Error parsing PDF:''
              \<or> startsWith fileContent ''[Error reading PDF file:''
        then Some (errorReport file fileContent False, d, [])
      else
        (let estimatedTokens = estimateTokenCount (Some fileContent) in
         case (if estimatedTokens > 8000 then splitTextIntoChunks fileContent 4000 200
               else Some [fileContent]) of
           None \<Rightarrow> None
         | Some textChunks \<Rightarrow> Some (uploadChunks rt d file textChunks)))"

subsection \<open>The scrape handler\<close>

text \<open>
  The entries of \<open>contextItems\<close> in the response, and the response with status 200. Its
  fields \<open>success\<close> and \<open>message\<close> carry the prefix \<open>response\<close>; its fields \<open>totalChunks\<close>,
  \<open>successfulChunks\<close> and \<open>failedChunks\<close> (a number here) carry the prefix \<open>url\<close>, since the
  upload report has fields of these names.
\<close>

record ItemSummary =
  summaryId :: string
  summaryTitle :: "string option"
  contentPreview :: string
  embeddingSummary :: string

record ScrapeResponse =
  responseSuccess :: bool
  responseMessage :: string
  contentLength :: nat
  scrapingMethod :: string
  urlTotalChunks :: nat
  urlSuccessfulChunks :: nat
  urlFailedChunks :: nat
  contextItems :: "ItemSummary list"

definition scrapeChunk ::
  "runtime \<Rightarrow> string \<Rightarrow> string \<Rightarrow> nat \<Rightarrow> nat \<Rightarrow> string \<Rightarrow> ChunkResult \<times> ContextItem option" where
  "scrapeChunk rt pageUrl pageTitle chunkCount index chunk =
     (let titleOrUrl = (if pageTitle \<noteq> [] then pageTitle else pageUrl);
          chunkTitle = (if chunkCount > 1 then createChunkTitle chunk index titleOrUrl
                        else titleOrUrl);
          chunkTokens = estimateTokenCount (Some chunk)
      in case embedQuery rt index chunk of
           Inr vector \<Rightarrow>
             (\<lparr>chunkIndex = index, chunkTitle = Some chunkTitle, chunkError = None,
               charCount = length chunk, tokenCount = chunkTokens\<rparr>,
              Some \<lparr>itemId = dateNow rt index @ ''-url-chunk-'' @ showNat index @ ''-''
                              @ randomSuffix rt index,
                    source = ''url'', content = chunk, title = Some chunkTitle,
                    url = Some pageUrl, filepath = None, embedding = Some vector,
                    createdAt = isoNow rt index, similarity = None\<rparr>)
         | Inl err \<Rightarrow>
             (\<lparr>chunkIndex = index, chunkTitle = None, chunkError = Some (errorMessage err),
               charCount = length chunk, tokenCount = estimateTokenCount (Some chunk)\<rparr>,
              None))"

definition itemSummary :: "ContextItem \<Rightarrow> ItemSummary" where
  "itemSummary item =
     \<lparr>summaryId = itemId item, summaryTitle = title item,
      contentPreview = take 100 (content item) @ ''...'',
      embeddingSummary = ''[Array of '' @
         showNat (case embedding item of None \<Rightarrow> 0 | Some e \<Rightarrow> length e) @ '' numbers]''\<rparr>"

text \<open>
  \<open>Promise.all(textChunks.map(...))\<close> of the scrape handler and what follows it: the items
  are pushed to \<open>contextItems\<close> in completion order and appended to the store in one write.
\<close>

definition scrapeChunks ::
  "runtime \<Rightarrow> db \<Rightarrow> string \<Rightarrow> string \<Rightarrow> string \<Rightarrow> nat \<Rightarrow> string list
     \<Rightarrow> ScrapeResponse \<times> db \<times> string list" where
  "scrapeChunks rt d pageUrl pageTitle method contentLen textChunks =
     (let n = length textChunks;
          chunkResults = map (\<lambda>(index, chunk). fst (scrapeChunk rt pageUrl pageTitle n index chunk))
                             (enumerate 0 textChunks);
          items = concat (map (\<lambda>index.
                     case snd (scrapeChunk rt pageUrl pageTitle n index (textChunks ! index)) of
                       None \<Rightarrow> []
                     | Some contextItem \<Rightarrow> [contextItem])
                   (completionOrder rt n));
          successful = filter (\<lambda>c. \<not> truthy (chunkError c)) chunkResults;
          failed = filter (\<lambda>c. truthy (chunkError c)) chunkResults;
          d' = appendContext d items
      in (\<lparr>responseSuccess = True,
           responseMessage = ''URL content scraped with '' @ method
                             @ '' method and stored with embeddings'',
           contentLength = contentLen, scrapingMethod = method,
           urlTotalChunks = length textChunks, urlSuccessfulChunks = length successful,
           urlFailedChunks = (if length failed > 0 then length failed else 0),
           contextItems = map itemSummary items\<rparr>,
          d', textChunks))"

text \<open>
  The scrape handler from the scraped \<open>pageContent\<close> and \<open>pageTitle\<close> on: the check of the
  API key (status 500), the token estimate, the chunking and the chunk processing. A text
  shorter than 100 characters is only logged. \<open>None\<close> means that the chunker never returns.
\<close>

definition scrapeIngest ::
  "runtime \<Rightarrow> db \<Rightarrow> string option \<Rightarrow> string \<Rightarrow> string \<Rightarrow> string \<Rightarrow> string
     \<Rightarrow> (((nat \<times> string) + ScrapeResponse) \<times> db \<times> string list) option" where
  "scrapeIngest rt d apiKey pageUrl pageTitle method pageContent =
     (if \<not> truthy apiKey then Some (Inl (500, ''OpenAI API key is not configured''), d, [])
      else
        (let estimatedTokens = estimateTokenCount (Some pageContent) in
         case (if estimatedTokens > 8000 then splitTextIntoChunks pageContent 4000 200
               else Some [pageContent]) of
           None \<Rightarrow> None
         | Some textChunks \<Rightarrow>
             (case scrapeChunks rt d pageUrl pageTitle method (length pageContent) textChunks of
                (response, d', calls) \<Rightarrow> Some (Inr response, d', calls))))"

section \<open>Notions used to state the properties\<close>

text \<open>
  The dot product, the Euclidean norm and the cosine of two vectors as the specification
  writes them: the dot product divided by the product of the norms, and 0 when a norm is 0.
\<close>

definition dot :: "real list \<Rightarrow> real list \<Rightarrow> real" where
  "dot A B = sum_list (map2 (*) A B)"

definition vecNorm :: "real list \<Rightarrow> real" where
  "vecNorm A = sqrt (dot A A)"

definition cosineOf :: "real list \<Rightarrow> real list \<Rightarrow> real" where
  "cosineOf A B =
     (if vecNorm A = 0 \<or> vecNorm B = 0 then 0 else dot A B / (vecNorm A * vecNorm B))"


text \<open>The qualifying records of a store, each with its cosine similarity to the query.\<close>

definition attachSimilarity :: "real list \<Rightarrow> ContextItem \<Rightarrow> ContextItem" where
  "attachSimilarity queryEmbedding item =
     item\<lparr>similarity :=
            Some (cosineOf queryEmbedding (case embedding item of None \<Rightarrow> [] | Some e \<Rightarrow> e))\<rparr>"


text \<open>
  For a batch of chunks: whether the embedding call of chunk \<open>i\<close> fails, the indices of the
  failed and of the embedded chunks, the message of a failure, the vector of a success, and
  the condition that every failure carries a non-empty message.
\<close>

definition embedFails :: "runtime \<Rightarrow> string list \<Rightarrow> nat \<Rightarrow> bool" where
  "embedFails rt textChunks i = isl (embedQuery rt i (textChunks ! i))"

definition failedIndices :: "runtime \<Rightarrow> string list \<Rightarrow> nat list" where
  "failedIndices rt textChunks = filter (embedFails rt textChunks) [0..<length textChunks]"

definition succeededIndices :: "runtime \<Rightarrow> string list \<Rightarrow> nat list" where
  "succeededIndices rt textChunks =
     filter (\<lambda>i. \<not> embedFails rt textChunks i) [0..<length textChunks]"

definition failureMessage :: "runtime \<Rightarrow> string list \<Rightarrow> nat \<Rightarrow> string" where
  "failureMessage rt textChunks i =
     (case embedQuery rt i (textChunks ! i) of Inl err \<Rightarrow> errorMessage err | Inr v \<Rightarrow> [])"

definition embeddedVector :: "runtime \<Rightarrow> string list \<Rightarrow> nat \<Rightarrow> real list option" where
  "embeddedVector rt textChunks i =
     (case embedQuery rt i (textChunks ! i) of Inl err \<Rightarrow> None | Inr v \<Rightarrow> Some v)"

definition messagesNonEmpty :: "runtime \<Rightarrow> string list \<Rightarrow> bool" where
  "messagesNonEmpty rt textChunks =
     list_all (\<lambda>i. failureMessage rt textChunks i \<noteq> []) (failedIndices rt textChunks)"

section \<open>Concrete inputs\<close>


definition fixtureDb :: "ContextItem list \<Rightarrow> db" where
  "fixtureDb contexts = dbSet (dbInit Map.empty) ''context'' contexts"

text \<open>A runtime with given embedding outcomes in which the promises settle in index order.\<close>

definition fixtureRuntime :: "(nat \<Rightarrow> string \<Rightarrow> thrown + real list) \<Rightarrow> runtime" where
  "fixtureRuntime outcome =
     \<lparr>embedQuery = outcome, settleTime = (\<lambda>i. 0), dateNow = (\<lambda>i. ''1735689600000''),
      randomSuffix = (\<lambda>i. ''k3j9x2a''), isoNow = (\<lambda>i. ''2025-01-01T00:00:00.000Z'')\<rparr>"

definition failingAt1 :: runtime where
  "failingAt1 =
     fixtureRuntime (\<lambda>i c. if i = 1 then Inl (ErrorObject ''rate limit'') else Inr [1, 0])"

definition emptyMessage :: runtime where
  "emptyMessage = fixtureRuntime (\<lambda>i c. Inl (ErrorObject []))"

definition fixtureFile :: ProcessedFile where
  "fixtureFile = \<lparr>filename = ''notes.txt'', uploadPath = ''/uploads/notes.txt'',
                  mimetype = ''text/plain'', fileSize = 5\<rparr>"

text \<open>
  A text of 33901 characters with one space: 3900 letters, a space, 30000 letters. Its token
  estimate is above 8000, so both handlers pass it to the chunker.
\<close>

definition longWordText :: string where
  "longWordText = replicate 3900 (CHR ''a'') @ '' '' @ replicate 30000 (CHR ''b'')"

section \<open>Properties of the text chunker and the token estimate\<close>

subsection \<open>lastIndexOf\<close>

lemma lastIndexFrom_le: "lastIndexFrom t pat k \<le> int k"
  by (induction k) auto

lemma lastIndexOf_le: "lastIndexOf t pat fromIndex \<le> max fromIndex 0"
proof (cases "length t < length pat")
  case True
  then show ?thesis by (simp add: lastIndexOf_def)
next
  case False
  let ?k = "nat (min (max fromIndex 0) (int (length t) - int (length pat)))"
  have "lastIndexFrom t pat ?k \<le> int ?k" by (rule lastIndexFrom_le)
  also have "int ?k \<le> max fromIndex 0" using False by auto
  finally show ?thesis using False by (simp add: lastIndexOf_def)
qed

lemma lastIndexFrom_none:
  "(\<And>j. j \<le> k \<Longrightarrow> \<not> matchAt t pat j) \<Longrightarrow> lastIndexFrom t pat k = - 1"
  by (induction k) auto

lemma lastIndexFrom_found:
  "matchAt t pat m \<Longrightarrow> m \<le> k \<Longrightarrow> (\<And>j. m < j \<Longrightarrow> j \<le> k \<Longrightarrow> \<not> matchAt t pat j)
   \<Longrightarrow> lastIndexFrom t pat k = int m"
proof (induction k)
  case 0
  then show ?case by simp
next
  case (Suc k)
  show ?case
  proof (cases "m = Suc k")
    case True
    with Suc.prems show ?thesis by simp
  next
    case False
    with Suc.prems have "m \<le> k" by simp
    moreover have "\<not> matchAt t pat (Suc k)" using Suc.prems False by auto
    ultimately show ?thesis using Suc by auto
  qed
qed

lemma matchAt_Cons:
  assumes "matchAt t (c # pat) k"
  shows "k < length t \<and> t ! k = c"
proof -
  from assms have eq: "take (Suc (length pat)) (drop k t) = c # pat"
    by (simp add: matchAt_def)
  then have "drop k t \<noteq> []" by auto
  then have lt: "k < length t" by simp
  then have "drop k t = t ! k # drop (Suc k) t"
    by (simp add: Cons_nth_drop_Suc)
  with eq have "t ! k = c" by simp
  with lt show ?thesis by simp
qed

lemma matchAt_single: "matchAt t [c] k \<longleftrightarrow> k < length t \<and> t ! k = c"
proof
  assume "matchAt t [c] k"
  then show "k < length t \<and> t ! k = c" by (rule matchAt_Cons)
next
  assume a: "k < length t \<and> t ! k = c"
  then have "drop k t = c # drop (Suc k) t"
    using Cons_nth_drop_Suc [of k t] by simp
  then show "matchAt t [c] k" by (simp add: matchAt_def)
qed

lemma matchAt_absent:
  assumes "c \<notin> set t"
  shows "\<not> matchAt t (c # pat) k"
proof
  assume "matchAt t (c # pat) k"
  then have "k < length t \<and> t ! k = c" by (rule matchAt_Cons)
  then have "c \<in> set t" by (metis nth_mem)
  with assms show False by simp
qed

lemma lastIndexOf_absent:
  assumes "c \<notin> set t"
  shows "lastIndexOf t (c # pat) fromIndex = - 1"
  using assms
  by (simp add: lastIndexOf_def lastIndexFrom_none matchAt_absent)

lemma lastIndexOf_single:
  assumes "t ! m = c" and "m < length t" and "int m \<le> fromIndex"
    and "\<And>j. m < j \<Longrightarrow> j < length t \<Longrightarrow> t ! j \<noteq> c"
  shows "lastIndexOf t [c] fromIndex = int m"
proof -
  let ?k = "nat (min (max fromIndex 0) (int (length t) - int (length [c])))"
  have mk: "m \<le> ?k" using assms(2,3) by auto
  have "lastIndexFrom t [c] ?k = int m"
  proof (rule lastIndexFrom_found)
    show "matchAt t [c] m" using assms(1,2) by (simp add: matchAt_single)
    show "m \<le> ?k" by (rule mk)
    fix j assume "m < j" "j \<le> ?k"
    then show "\<not> matchAt t [c] j" using assms(4)[of j] by (auto simp: matchAt_single)
  qed
  moreover have "\<not> length t < length [c]" using assms(2) by auto
  ultimately show ?thesis by (simp add: lastIndexOf_def)
qed

subsection \<open>One iteration of the loop\<close>

lemma chunkEnd_upper:
  "0 \<le> startIndex \<Longrightarrow> 0 < chunkSize \<Longrightarrow>
   chunkEnd t chunkSize startIndex \<le> startIndex + chunkSize + 2"
  using lastIndexOf_le[of t "[CHR 0x0A, CHR 0x0A]" "startIndex + chunkSize"]
        lastIndexOf_le[of t "''. ''" "startIndex + chunkSize"]
        lastIndexOf_le[of t "'' ''" "startIndex + chunkSize"]
  by (auto simp: chunkEnd_def Let_def)

lemma chunkEnd_lower: "0 < chunkSize \<Longrightarrow> startIndex < chunkEnd t chunkSize startIndex"
  by (auto simp: chunkEnd_def Let_def)

lemma nextStart_nonneg: "0 \<le> endIndex \<Longrightarrow> 0 \<le> nextStart endIndex overlap"
  by (auto simp: nextStart_def Let_def)

lemma length_jsSlice: "0 \<le> s \<Longrightarrow> 0 \<le> e \<Longrightarrow> int (length (jsSlice xs s e)) \<le> max 0 (e - s)"
  by (auto simp: jsSlice_def Let_def)

subsection \<open>An invariant rule for the loop\<close>

text \<open>
  If the loop returns, an invariant of its body holds for the returned chunks, together
  with the negated loop condition.
\<close>

lemma splitLoop_rule:
  assumes ret: "splitLoop t cs ov s chunks = Some res"
    and inv: "I s chunks"
    and step: "\<And>s chunks. I s chunks \<Longrightarrow> s < int (length t) \<Longrightarrow>
                 I (nextStart (chunkEnd t cs s) ov) (chunks @ [jsSlice t s (chunkEnd t cs s)])"
  shows "\<exists>s'. I s' res \<and> \<not> s' < int (length t)"
proof -
  let ?P = "\<lambda>t' cs' ov' s ch y.
      t' = t \<longrightarrow> cs' = cs \<longrightarrow> ov' = ov \<longrightarrow> I s ch \<longrightarrow> (\<exists>s'. I s' y \<and> \<not> s' < int (length t))"
  have "?P t cs ov s chunks res"
  proof (rule splitLoop.raw_induct[where P = ?P, OF _ ret])
    fix loop t' cs' ov' s ch y
    assume IH: "\<And>t' cs' ov' s ch y. loop t' cs' ov' s ch = Some y \<Longrightarrow> ?P t' cs' ov' s ch y"
      and body: "(if s < int (length t') then
        (let endIndex = chunkEnd t' cs' s in
         loop t' cs' ov' (nextStart endIndex ov') (ch @ [jsSlice t' s endIndex]))
      else Some ch) = Some y"
    show "?P t' cs' ov' s ch y"
    proof (intro impI)
      assume eqs: "t' = t" "cs' = cs" "ov' = ov" and i: "I s ch"
      show "\<exists>s'. I s' y \<and> \<not> s' < int (length t)"
      proof (cases "s < int (length t)")
        case True
        with body eqs have
          "loop t cs ov (nextStart (chunkEnd t cs s) ov) (ch @ [jsSlice t s (chunkEnd t cs s)]) = Some y"
          by (simp add: Let_def)
        from IH[OF this] step[OF i True] show ?thesis by simp
      next
        case False
        with body eqs have "y = ch" by simp
        with i False show ?thesis by blast
      qed
    qed
  qed
  with inv show ?thesis by simp
qed

text \<open>A start index that the loop body maps to itself is never left: the loop does not return.\<close>

lemma splitLoop_stuck:
  assumes "s < int (length t)" and "nextStart (chunkEnd t cs s) ov = s"
  shows "splitLoop t cs ov s chunks = None"
proof (cases "splitLoop t cs ov s chunks")
  case None
  then show ?thesis .
next
  case (Some res)
  have "\<exists>s'. (\<lambda>s' c. s' = s) s' res \<and> \<not> s' < int (length t)"
    by (rule splitLoop_rule[OF Some]) (simp_all add: assms)
  with assms show ?thesis by simp
qed

text \<open>Without overlap the start index grows in every iteration, and the loop returns.\<close>

lemma splitLoop_terminates_no_overlap:
  assumes "0 < cs"
  shows "\<exists>res. splitLoop t cs 0 s chunks = Some res"
proof (induction "nat (int (length t) - s)" arbitrary: s chunks rule: less_induct)
  case less
  show ?case
  proof (cases "s < int (length t)")
    case False
    then show ?thesis by (subst splitLoop.simps) simp
  next
    case True
    let ?e = "chunkEnd t cs s"
    have lo: "s < ?e" using assms by (rule chunkEnd_lower)
    have n: "nextStart ?e 0 = ?e" by (simp add: nextStart_def)
    have "nat (int (length t) - ?e) < nat (int (length t) - s)" using lo True by simp
    from less[OF this] obtain res where
      "splitLoop t cs 0 ?e (chunks @ [jsSlice t s ?e]) = Some res" by blast
    then show ?thesis using True n by (subst splitLoop.simps) (simp add: Let_def)
  qed
qed

lemma splitTextIntoChunks_terminates_no_overlap:
  "0 < chunkSize \<Longrightarrow> \<exists>chunks. splitTextIntoChunks t chunkSize 0 = Some chunks"
  using splitLoop_terminates_no_overlap[of chunkSize t 0 "[]"]
  by (simp add: splitTextIntoChunks_def)

subsection \<open>Termination (claim C2)\<close>

lemma matchAt_set:
  assumes "matchAt t pat k"
  shows "set pat \<subseteq> set t"
proof -
  from assms have "set pat = set (take (length pat) (drop k t))"
    by (simp add: matchAt_def)
  also have "\<dots> \<subseteq> set (drop k t)" by (rule set_take_subset)
  also have "\<dots> \<subseteq> set t" by (rule set_drop_subset)
  finally show ?thesis .
qed

lemma lastIndexOf_not_contained:
  assumes "c \<in> set pat" and "c \<notin> set t"
  shows "lastIndexOf t pat fromIndex = - 1"
proof -
  have "\<And>j. \<not> matchAt t pat j"
    using assms matchAt_set by blast
  then show ?thesis by (simp add: lastIndexOf_def lastIndexFrom_none)
qed

lemma chunkEnd_no_breaks:
  assumes "CHR '' '' \<notin> set t" and "CHR 0x0A \<notin> set t" and "0 \<le> startIndex"
  shows "chunkEnd t chunkSize startIndex = startIndex + chunkSize"
proof -
  have "lastIndexOf t [CHR 0x0A, CHR 0x0A] (startIndex + chunkSize) = - 1"
    using assms(2) by (intro lastIndexOf_not_contained[where c = "CHR 0x0A"]) simp_all
  moreover have "lastIndexOf t ''. '' (startIndex + chunkSize) = - 1"
    using assms(1) by (intro lastIndexOf_not_contained[where c = "CHR '' ''"]) simp_all
  moreover have "lastIndexOf t '' '' (startIndex + chunkSize) = - 1"
    using assms(1) by (intro lastIndexOf_not_contained[where c = "CHR '' ''"]) simp_all
  ultimately show ?thesis
    using assms(3) by (auto simp: chunkEnd_def Let_def)
qed

text \<open>
  The input that the specification calls pathological: on every text without a space or a
  line feed that is longer than the chunk size, an overlap equal to the chunk size makes
  the loop repeat its second iteration forever.
\<close>

lemma splitTextIntoChunks_no_breaks_overlap_diverges:
  assumes cs: "0 < chunkSize" and len: "chunkSize < int (length t)"
    and nb: "CHR '' '' \<notin> set t" "CHR 0x0A \<notin> set t"
  shows "splitTextIntoChunks t chunkSize chunkSize = None"
proof -
  have e: "\<And>s. 0 \<le> s \<Longrightarrow> chunkEnd t chunkSize s = s + chunkSize"
    using nb by (rule chunkEnd_no_breaks)
  have n0: "nextStart chunkSize chunkSize = chunkSize" by (simp add: nextStart_def)
  have n1: "nextStart (2 * chunkSize) chunkSize = chunkSize"
    using cs by (simp add: nextStart_def)
  have ne: "t \<noteq> []" using cs len by (cases t) auto
  have first: "splitLoop t chunkSize chunkSize 0 []
                 = splitLoop t chunkSize chunkSize chunkSize ([] @ [jsSlice t 0 chunkSize])"
    using ne by (subst splitLoop.simps) (simp add: e n0)
  have stuck: "splitLoop t chunkSize chunkSize chunkSize ([] @ [jsSlice t 0 chunkSize]) = None"
    using len cs by (intro splitLoop_stuck) (simp_all add: e n1)
  show ?thesis
    using ne first stuck len by (simp add: splitTextIntoChunks_def)
qed

text \<open>
  Claim C2 says that \<open>splitTextIntoChunks\<close> terminates for every text, every
  \<open>maxChunkChars > 0\<close> and every \<open>overlapChars \<ge> 0\<close>, because a next start index that does
  not advance is forced to the chunk's end. The progress check of the code only compares the
  next start index with 0 and with the end index, not with the current start index. On the
  text \<open>aa\<close> with chunk size 1 and overlap 1 the second iteration starts at index 1, ends at
  index 2 and computes the next start index 1 again: the call never returns.
\<close>

theorem splitTextIntoChunks_overlap_diverges:
  "splitTextIntoChunks ''aa'' 1 1 = None"
proof -
  have e0: "chunkEnd ''aa'' 1 0 = 1" by code_simp
  have n0: "nextStart 1 1 = 1" by (simp add: nextStart_def)
  have e1: "chunkEnd ''aa'' 1 1 = 2" by code_simp
  have n1: "nextStart 2 1 = 1" by (simp add: nextStart_def)
  have first: "splitLoop ''aa'' 1 1 0 [] = splitLoop ''aa'' 1 1 1 ([] @ [jsSlice ''aa'' 0 1])"
    by (subst splitLoop.simps) (simp add: e0 n0)
  have "splitLoop ''aa'' 1 1 1 ([] @ [jsSlice ''aa'' 0 1]) = None"
    by (rule splitLoop_stuck) (simp_all add: e1 n1)
  with first show ?thesis by (simp add: splitTextIntoChunks_def)
qed

subsection \<open>Reconstruction (claim C5)\<close>

lemma longWordText_length: "length longWordText = 33901"
  by (simp add: longWordText_def)

lemma longWordText_no_newline: "CHR 0x0A \<notin> set longWordText"
  by (simp add: longWordText_def)

lemma longWordText_no_dot: "CHR ''.'' \<notin> set longWordText"
  by (simp add: longWordText_def)

lemma longWordText_space:
  assumes "3900 \<le> fromIndex"
  shows "lastIndexOf longWordText '' '' fromIndex = 3900"
proof -
  have "lastIndexOf longWordText [CHR '' ''] fromIndex = int 3900"
  proof (rule lastIndexOf_single)
    show "longWordText ! 3900 = CHR '' ''" by (simp add: longWordText_def nth_append)
    show "3900 < length longWordText" by (simp add: longWordText_length)
    show "int 3900 \<le> fromIndex" using assms by simp
    fix j assume "3900 < j" "j < length longWordText"
    then show "longWordText ! j \<noteq> CHR '' ''"
      by (simp add: longWordText_def nth_append nth_Cons')
  qed
  then show ?thesis by simp
qed

lemma longWordText_first_end: "chunkEnd longWordText 4000 0 = 3901"
  by (simp add: chunkEnd_def longWordText_length lastIndexOf_absent longWordText_no_newline
      longWordText_no_dot longWordText_space)

lemma longWordText_second_end: "chunkEnd longWordText 4000 3701 = 3901"
  by (simp add: chunkEnd_def longWordText_length lastIndexOf_absent longWordText_no_newline
      longWordText_no_dot longWordText_space)

lemma longWordText_split: "splitTextIntoChunks longWordText 4000 200 = None"
proof -
  have n: "nextStart 3901 200 = 3701" by (simp add: nextStart_def)
  have first: "splitLoop longWordText 4000 200 0 []
                 = splitLoop longWordText 4000 200 3701 ([] @ [jsSlice longWordText 0 3901])"
    by (subst splitLoop.simps) (simp add: longWordText_first_end n longWordText_length)
  have "splitLoop longWordText 4000 200 3701 ([] @ [jsSlice longWordText 0 3901]) = None"
    by (rule splitLoop_stuck) (simp_all add: longWordText_second_end n longWordText_length)
  moreover have "longWordText \<noteq> []" by (simp add: longWordText_def)
  ultimately show ?thesis
    using first by (simp add: splitTextIntoChunks_def longWordText_length)
qed

lemma longWordText_trim: "jsTrim longWordText \<noteq> []"
proof -
  have "dropWhile isWhiteSpace longWordText = longWordText"
    by (simp add: longWordText_def isWhiteSpace_def dropWhile_append1[where x = "CHR ''a''"])
  moreover have "dropWhile isWhiteSpace (rev longWordText) = rev longWordText"
    by (simp add: longWordText_def isWhiteSpace_def dropWhile_append1[where x = "CHR ''b''"])
  ultimately show ?thesis by (simp add: jsTrim_def longWordText_def)
qed

lemma longWordText_tokens: "estimateTokenCount (Some longWordText) > 8000"
  by (simp add: estimateTokenCount_def longWordText_def)

lemma longWordText_not_sentinel: "\<not> startsWith longWordText (CHR ''['' # rest)"
  by (simp add: startsWith_def longWordText_def)

text \<open>
  Claim C5 says that for every input text the sequence returned by \<open>splitTextIntoChunks\<close> is
  finite and that the chunks, with the overlaps removed, concatenate to the text. With the
  default parameters 4000 and 200 and the text \<open>longWordText\<close> (one space at index 3900,
  followed by more than 4000 characters without a break) the chunker returns no sequence at
  all: the first chunk ends behind the space at 3901, the second chunk starts at 3701, finds
  the same space and ends at 3901 again, and so does every later one. Both handlers pass this
  text to the chunker, so neither of them returns.
\<close>

theorem splitTextIntoChunks_default_parameters_diverge:
  "splitTextIntoChunks longWordText 4000 200 = None \<and>
   processFile rt d file longWordText = None \<and>
   scrapeIngest rt d (Some ''sk-test'') pageUrl pageTitle method longWordText = None"
proof -
  have ne: "longWordText \<noteq> []" by (simp add: longWordText_def)
  show ?thesis
    using ne longWordText_trim longWordText_tokens longWordText_split
    by (simp add: processFile_def scrapeIngest_def longWordText_not_sentinel truthy_def)
qed

subsection \<open>Chunk sizes (claim C6)\<close>

lemma splitLoop_chunk_bound:
  assumes ret: "splitLoop t cs ov s chunks = Some res"
    and cs: "0 < cs" and s: "0 \<le> s"
    and init: "\<forall>c\<in>set chunks. int (length c) \<le> cs + 2"
  shows "\<forall>c\<in>set res. int (length c) \<le> cs + 2"
proof -
  let ?I = "\<lambda>s (chunks :: string list). 0 \<le> s \<and> (\<forall>c\<in>set chunks. int (length c) \<le> cs + 2)"
  have "\<exists>s'. ?I s' res \<and> \<not> s' < int (length t)"
  proof (rule splitLoop_rule[OF ret, where I = ?I])
    show "?I s chunks" using s init by simp
  next
    fix s chunks
    assume i: "?I s chunks" and lt: "s < int (length t)"
    let ?e = "chunkEnd t cs s"
    from i have s0: "0 \<le> s" by simp
    have up: "?e \<le> s + cs + 2" using s0 cs by (rule chunkEnd_upper)
    have lo: "s < ?e" using cs by (rule chunkEnd_lower)
    have "int (length (jsSlice t s ?e)) \<le> max 0 (?e - s)"
      using s0 lo by (intro length_jsSlice) auto
    then have "int (length (jsSlice t s ?e)) \<le> cs + 2" using up cs by auto
    moreover have "0 \<le> nextStart ?e ov" using s0 lo by (intro nextStart_nonneg) auto
    ultimately show "?I (nextStart ?e ov) (chunks @ [jsSlice t s ?e])" using i by auto
  qed
  then show ?thesis by blast
qed

text \<open>
  Claim C6 as stated fails: with chunk size 5 and overlap 0 the text \<open>hello world foo\<close> is
  longer than 5, and the first of its three chunks (not the last) is \<open>hello \<close> with the
  space, 6 characters, more than \<open>maxChunkChars + overlapChars = 5\<close>. A break that begins at
  the target boundary is found by \<open>lastIndexOf\<close>, and the break characters are included in
  the chunk.
\<close>

theorem splitTextIntoChunks_bound_counterexample:
  "splitTextIntoChunks ''hello world foo'' 5 0 = Some [''hello '', ''world '', ''foo''] \<and>
   int (length ''hello world foo'') > 5 \<and>
   \<not> int (length ''hello '') \<le> 5 + 0"
  by code_simp

text \<open>
  Claim C6, amended: a text of length at most \<open>maxChunkChars\<close> (the empty text included) is
  returned as the single chunk \<open>[text]\<close>; and whenever \<open>maxChunkChars > 0\<close> and
  \<open>splitTextIntoChunks\<close> returns, every returned chunk, the last one included, has at most
  \<open>maxChunkChars + 2\<close> characters, hence at most \<open>maxChunkChars + overlapChars\<close> when
  \<open>overlapChars \<ge> 2\<close>.
\<close>

theorem splitTextIntoChunks_chunk_size_bound:
  "(int (length t) \<le> chunkSize \<longrightarrow> splitTextIntoChunks t chunkSize overlap = Some [t]) \<and>
   (0 < chunkSize \<and> splitTextIntoChunks t chunkSize overlap = Some chunks \<longrightarrow>
      (\<forall>c\<in>set chunks. int (length c) \<le> chunkSize + 2) \<and>
      (2 \<le> overlap \<longrightarrow> (\<forall>c\<in>set chunks. int (length c) \<le> chunkSize + overlap)))"
proof (intro conjI impI)
  assume "int (length t) \<le> chunkSize"
  then show "splitTextIntoChunks t chunkSize overlap = Some [t]"
    by (simp add: splitTextIntoChunks_def)
next
  assume a: "0 < chunkSize \<and> splitTextIntoChunks t chunkSize overlap = Some chunks"
  show b: "\<forall>c\<in>set chunks. int (length c) \<le> chunkSize + 2"
  proof (cases "t = [] \<or> int (length t) \<le> chunkSize")
    case True
    with a have "chunks = [t]" by (auto simp: splitTextIntoChunks_def)
    with True a show ?thesis by auto
  next
    case False
    with a have "splitLoop t chunkSize overlap 0 [] = Some chunks"
      by (simp add: splitTextIntoChunks_def)
    then show ?thesis
    proof (rule splitLoop_chunk_bound)
      show "0 < chunkSize" using a by simp
      show "(0::int) \<le> 0" by simp
      show "\<forall>c\<in>set ([]::string list). int (length c) \<le> chunkSize + 2" by simp
    qed
  qed
  assume "2 \<le> overlap"
  with b show "\<forall>c\<in>set chunks. int (length c) \<le> chunkSize + overlap" by auto
qed

text \<open>
  The bound at a text that is split into three chunks (chunk size 5, overlap 0), the bound
  with the overlap at a text that is split into four chunks (chunk size 7, overlap 2), where
  the chunker returns in both cases, and the single chunk at a short text with the default
  overlap.
\<close>

theorem splitTextIntoChunks_chunk_size_bound_witness:
  "(0 < (5::int) \<and>
      splitTextIntoChunks ''hello world foo'' 5 0 = Some [''hello '', ''world '', ''foo'']) \<and>
   int (length ''hello '') \<le> 5 + 2 \<and> int (length ''world '') \<le> 5 + 2 \<and>
   int (length ''foo'') \<le> 5 + 2 \<and>
   (0 < (7::int) \<and>
      splitTextIntoChunks ''the quick brown fox'' 7 2
        = Some [''the '', ''e quick '', ''k brown '', ''n fox'']) \<and>
   (2::int) \<le> 2 \<and>
   int (length ''the '') \<le> 7 + 2 \<and> int (length ''e quick '') \<le> 7 + 2 \<and>
   int (length ''k brown '') \<le> 7 + 2 \<and> int (length ''n fox'') \<le> 7 + 2 \<and>
   int (length ''hi'') \<le> 5 \<and> splitTextIntoChunks ''hi'' 5 200 = Some [''hi'']"
proof -
  have h: "0 < (5::int) \<and>
      splitTextIntoChunks ''hello world foo'' 5 0 = Some [''hello '', ''world '', ''foo'']"
    by code_simp
  have q: "0 < (7::int) \<and>
      splitTextIntoChunks ''the quick brown fox'' 7 2
        = Some [''the '', ''e quick '', ''k brown '', ''n fox'']"
    by code_simp
  have o: "(2::int) \<le> 2" by simp
  have k: "int (length ''hi'') \<le> 5" by simp
  from splitTextIntoChunks_chunk_size_bound
         [of "''hello world foo''" 5 0 "[''hello '', ''world '', ''foo'']"] h
  have "\<forall>c\<in>set [''hello '', ''world '', ''foo'']. int (length c) \<le> 5 + 2"
    by blast
  then have 1: "int (length ''hello '') \<le> 5 + 2 \<and> int (length ''world '') \<le> 5 + 2 \<and>
      int (length ''foo'') \<le> 5 + 2"
    by simp
  from splitTextIntoChunks_chunk_size_bound
         [of "''the quick brown fox''" 7 2 "[''the '', ''e quick '', ''k brown '', ''n fox'']"] q o
  have "\<forall>c\<in>set [''the '', ''e quick '', ''k brown '', ''n fox'']. int (length c) \<le> 7 + 2"
    by blast
  then have 3: "int (length ''the '') \<le> 7 + 2 \<and> int (length ''e quick '') \<le> 7 + 2 \<and>
      int (length ''k brown '') \<le> 7 + 2 \<and> int (length ''n fox'') \<le> 7 + 2"
    by simp
  from splitTextIntoChunks_chunk_size_bound[of "''hi''" 5 200] k
  have 2: "splitTextIntoChunks ''hi'' 5 200 = Some [''hi'']"
    by blast
  from h q o k 1 2 3 show ?thesis by blast
qed

subsection \<open>The token estimate (claim C8)\<close>

text \<open>
  Claim C8: for every string, \<open>estimateTokenCount\<close> is the ceiling of a quarter of the
  length, which is the integer \<open>(length + 3) div 4\<close>; it is never negative; it is 0 for the
  empty and for the absent argument; a string of 4000 characters gives 1000.
\<close>

theorem estimateTokenCount_ceiling:
  "estimateTokenCount (Some t) = \<lceil>real (length t) / 4\<rceil> \<and>
   estimateTokenCount (Some t) = int ((length t + 3) div 4) \<and>
   0 \<le> estimateTokenCount x \<and>
   estimateTokenCount None = 0 \<and>
   estimateTokenCount (Some []) = 0 \<and>
   estimateTokenCount (Some (replicate 4000 (CHR ''a''))) = 1000"
proof -
  have "\<lceil>real (length t) / 4\<rceil> = - (- int (length t) div 4)"
    using ceiling_divide_eq_div[of "int (length t)" 4, where ?'a = real] by simp
  also have "\<dots> = int ((length t + 3) div 4)" by (simp add: zdiv_int)
  finally have c: "\<lceil>real (length t) / 4\<rceil> = int ((length t + 3) div 4)" .
  have "0 \<le> estimateTokenCount x"
    by (cases x) (auto simp: estimateTokenCount_def)
  then show ?thesis using c
    by (simp add: estimateTokenCount_def)
qed

section \<open>Properties of the similarity search\<close>

subsection \<open>cosineSimilarity\<close>








subsection \<open>Sorting, slicing and the scored records\<close>











lemma similarityOf_attach [simp]:
  "similarityOf (attachSimilarity q item)
     = cosineOf q (case embedding item of None \<Rightarrow> [] | Some e \<Rightarrow> e)"
  by (simp add: similarityOf_def attachSimilarity_def)


lemma contextOrEmpty_fixtureDb [simp]: "contextOrEmpty (fixtureDb contexts) = contexts"
  by (simp add: contextOrEmpty_def fixtureDb_def dbGet_def dbSet_def)

lemma contextOrEmpty_dbInit_empty [simp]: "contextOrEmpty (dbInit Map.empty) = []"
  by (simp add: contextOrEmpty_def dbInit_def dbHas_def dbGet_def dbSet_def)


subsection \<open>Dimensionality mismatch (claim C1)\<close>




subsection \<open>Ranking (claim C7)\<close>




subsection \<open>The limit is not validated (claim C10)\<close>



section \<open>Properties of the ingestion\<close>

subsection \<open>The results of the chunk callbacks\<close>

text \<open>
  What a callback returns and stores, by the outcome of its embedding call; the split of the
  results by the truthiness of \<open>error\<close>, which is the split into failed and embedded chunks
  when every failure has a non-empty message; and the records appended to the store.
\<close>

lemma enumerate_nth: "enumerate 0 xs = map (\<lambda>i. (i, xs ! i)) [0..<length xs]"
proof -
  have "enumerate 0 (map ((!) xs) [0..<length xs]) = map (\<lambda>k. (k, xs ! k)) [0..<length xs]"
    by (rule enumerate_map_upt)
  then show ?thesis by (simp add: map_nth)
qed

lemma uploadChunk_result:
  "chunkIndex (fst (uploadChunk rt file n i c)) = i \<and>
   chunkError (fst (uploadChunk rt file n i c)) =
     (case embedQuery rt i c of Inl err \<Rightarrow> Some (errorMessage err) | Inr v \<Rightarrow> None)"
  by (simp add: uploadChunk_def Let_def split: sum.splits)

lemma scrapeChunk_result:
  "chunkIndex (fst (scrapeChunk rt u t n i c)) = i \<and>
   chunkError (fst (scrapeChunk rt u t n i c)) =
     (case embedQuery rt i c of Inl err \<Rightarrow> Some (errorMessage err) | Inr v \<Rightarrow> None)"
  by (simp add: scrapeChunk_def Let_def split: sum.splits)

lemma uploadChunk_item:
  "(case snd (uploadChunk rt file n i c) of
      None \<Rightarrow> isl (embedQuery rt i c)
    | Some item \<Rightarrow> embedQuery rt i c = Inr (case embedding item of Some v \<Rightarrow> v | None \<Rightarrow> []) \<and>
        content item = c \<and> embedding item \<noteq> None)"
  by (simp add: uploadChunk_def Let_def split: sum.splits)

lemma scrapeChunk_item:
  "(case snd (scrapeChunk rt u t n i c) of
      None \<Rightarrow> isl (embedQuery rt i c)
    | Some item \<Rightarrow> embedQuery rt i c = Inr (case embedding item of Some v \<Rightarrow> v | None \<Rightarrow> []) \<and>
        content item = c \<and> embedding item \<noteq> None)"
  by (simp add: scrapeChunk_def Let_def split: sum.splits)


lemma truthy_error_iff:
  assumes "messagesNonEmpty rt textChunks" and "i < length textChunks"
    and "e = (case embedQuery rt i (textChunks ! i) of Inl err \<Rightarrow> Some (errorMessage err) | Inr v \<Rightarrow> None)"
  shows "truthy e \<longleftrightarrow> embedFails rt textChunks i"
proof (cases "embedQuery rt i (textChunks ! i)")
  case (Inl err)
  then have "i \<in> set (failedIndices rt textChunks)"
    using assms(2) by (simp add: failedIndices_def embedFails_def)
  with assms(1) have "failureMessage rt textChunks i \<noteq> []"
    by (simp add: messagesNonEmpty_def list_all_iff)
  with Inl assms(3) show ?thesis
    by (simp add: truthy_def embedFails_def failureMessage_def)
next
  case (Inr v)
  with assms(3) show ?thesis by (simp add: truthy_def embedFails_def)
qed

lemma partition_results:
  assumes ne: "messagesNonEmpty rt textChunks"
    and g: "\<And>i. i < length textChunks \<Longrightarrow> chunkError (g i) =
              (case embedQuery rt i (textChunks ! i) of Inl err \<Rightarrow> Some (errorMessage err) | Inr v \<Rightarrow> None)"
  shows "filter (\<lambda>c. truthy (chunkError c)) (map g [0..<length textChunks])
           = map g (failedIndices rt textChunks)"
    and "filter (\<lambda>c. \<not> truthy (chunkError c)) (map g [0..<length textChunks])
           = map g (succeededIndices rt textChunks)"
proof -
  have iff: "\<And>i. i \<in> set [0..<length textChunks] \<Longrightarrow>
      truthy (chunkError (g i)) = embedFails rt textChunks i"
    using truthy_error_iff[OF ne _ g] by simp
  have "filter ((\<lambda>c. truthy (chunkError c)) \<circ> g) [0..<length textChunks]
          = filter (embedFails rt textChunks) [0..<length textChunks]"
    by (rule filter_cong) (simp_all add: iff)
  then show "filter (\<lambda>c. truthy (chunkError c)) (map g [0..<length textChunks])
           = map g (failedIndices rt textChunks)"
    by (simp add: filter_map failedIndices_def)
  have "filter ((\<lambda>c. \<not> truthy (chunkError c)) \<circ> g) [0..<length textChunks]
          = filter (\<lambda>i. \<not> embedFails rt textChunks i) [0..<length textChunks]"
    by (rule filter_cong) (simp_all add: iff)
  then show "filter (\<lambda>c. \<not> truthy (chunkError c)) (map g [0..<length textChunks])
           = map g (succeededIndices rt textChunks)"
    by (simp add: filter_map succeededIndices_def)
qed

lemma length_succeededIndices:
  "length (succeededIndices rt textChunks) = length textChunks - length (failedIndices rt textChunks)"
  using sum_length_filter_compl[of "embedFails rt textChunks" "[0..<length textChunks]"]
  by (simp add: succeededIndices_def failedIndices_def)

lemma contextOrEmpty_append [simp]:
  "contextOrEmpty (appendContext d items) = contextOrEmpty d @ items"
  by (simp add: appendContext_def contextOrEmpty_def dbGet_def dbSet_def)

lemma foldl_appendContext:
  "contextOrEmpty (foldl (\<lambda>d i. case f i of None \<Rightarrow> d | Some item \<Rightarrow> appendContext d [item]) d order)
     = contextOrEmpty d @ concat (map (\<lambda>i. case f i of None \<Rightarrow> [] | Some item \<Rightarrow> [item]) order)"
  by (induction order arbitrary: d) (auto split: option.splits)

lemma items_projection:
  assumes "\<And>i. i \<in> set order \<Longrightarrow>
             (case f i of None \<Rightarrow> fails i | Some item \<Rightarrow> \<not> fails i \<and> h item = k i)"
  shows "map h (concat (map (\<lambda>i. case f i of None \<Rightarrow> [] | Some item \<Rightarrow> [item]) order))
           = map k (filter (\<lambda>i. \<not> fails i) order)"
  using assms
proof (induction order)
  case Nil
  then show ?case by simp
next
  case (Cons i order)
  from Cons.prems[of i] have "case f i of None \<Rightarrow> fails i | Some item \<Rightarrow> \<not> fails i \<and> h item = k i"
    by simp
  moreover have "map h (concat (map (\<lambda>i. case f i of None \<Rightarrow> [] | Some item \<Rightarrow> [item]) order))
           = map k (filter (\<lambda>i. \<not> fails i) order)"
    using Cons by simp
  ultimately show ?case by (auto split: option.splits)
qed

lemma mset_completionOrder: "mset (completionOrder rt n) = mset [0..<n]"
  by (simp add: completionOrder_def)

lemma set_completionOrder: "set (completionOrder rt n) = {0..<n}"
  by (simp add: completionOrder_def)

lemma new_items:
  assumes f: "\<And>i. i < length textChunks \<Longrightarrow>
      (case f i of
         None \<Rightarrow> isl (embedQuery rt i (textChunks ! i))
       | Some item \<Rightarrow> embedQuery rt i (textChunks ! i) = Inr (case embedding item of Some v \<Rightarrow> v | None \<Rightarrow> []) \<and>
           content item = textChunks ! i \<and> embedding item \<noteq> None)"
  defines "new \<equiv> concat (map (\<lambda>i. case f i of None \<Rightarrow> [] | Some item \<Rightarrow> [item])
                          (completionOrder rt (length textChunks)))"
  shows "length new = length textChunks - length (failedIndices rt textChunks) \<and>
         mset (map (\<lambda>item. (content item, embedding item)) new)
           = mset (map (\<lambda>i. (textChunks ! i, embeddedVector rt textChunks i)) (succeededIndices rt textChunks))"
proof -
  let ?h = "\<lambda>item. (content item, embedding item)"
  let ?k = "\<lambda>i. (textChunks ! i, embeddedVector rt textChunks i)"
  let ?order = "completionOrder rt (length textChunks)"
  have proj: "map ?h new = map ?k (filter (\<lambda>i. \<not> embedFails rt textChunks i) ?order)"
    unfolding new_def
  proof (rule items_projection)
    fix i assume "i \<in> set ?order"
    then have "i < length textChunks" by (simp add: set_completionOrder)
    from f[OF this]
    show "case f i of None \<Rightarrow> embedFails rt textChunks i
          | Some item \<Rightarrow> \<not> embedFails rt textChunks i \<and> ?h item = ?k i"
      by (auto simp: embedFails_def embeddedVector_def split: option.splits)
  qed
  have "mset (map ?k (filter (\<lambda>i. \<not> embedFails rt textChunks i) ?order))
          = image_mset ?k (filter_mset (\<lambda>i. \<not> embedFails rt textChunks i) (mset ?order))"
    by simp
  also have "\<dots> = mset (map ?k (succeededIndices rt textChunks))"
    by (simp add: mset_completionOrder succeededIndices_def)
  finally have m: "mset (map ?h new) = mset (map ?k (succeededIndices rt textChunks))"
    using proj by simp
  from m have "size (mset (map ?h new)) = size (mset (map ?k (succeededIndices rt textChunks)))"
    by simp
  then have "length new = length (succeededIndices rt textChunks)" by simp
  with m show ?thesis by (simp add: length_succeededIndices)
qed

subsection \<open>Reports and store of the two handlers\<close>

text \<open>
  The counts of the upload report and of the scrape response, and the growth of the
  collection \<open>context\<close>, for a batch of chunks.
\<close>

lemma uploadChunks_report:
  assumes ne: "messagesNonEmpty rt textChunks"
    and run: "uploadChunks rt d file textChunks = (report, d', calls)"
  shows "calls = textChunks"
    and "totalChunks report = length textChunks"
    and "successfulChunks report = Some (length textChunks - length (failedIndices rt textChunks))"
    and "failedChunks report =
           (if failedIndices rt textChunks = [] then None
            else Some (map (\<lambda>i. fst (uploadChunk rt file (length textChunks) i (textChunks ! i)))
                           (failedIndices rt textChunks)))"
proof -
  let ?g = "\<lambda>i. fst (uploadChunk rt file (length textChunks) i (textChunks ! i))"
  have results: "map (\<lambda>(index, chunk). fst (uploadChunk rt file (length textChunks) index chunk))
                     (enumerate 0 textChunks) = map ?g [0..<length textChunks]"
    by (simp add: enumerate_nth)
  have g: "\<And>i. i < length textChunks \<Longrightarrow> chunkError (?g i) =
              (case embedQuery rt i (textChunks ! i) of Inl err \<Rightarrow> Some (errorMessage err) | Inr v \<Rightarrow> None)"
    by (simp add: uploadChunk_result)
  let ?results = "map (\<lambda>(index, chunk). fst (uploadChunk rt file (length textChunks) index chunk))
                     (enumerate 0 textChunks)"
  have F: "filter (\<lambda>c. truthy (chunkError c)) ?results = map ?g (failedIndices rt textChunks)"
    unfolding results by (rule partition_results[OF ne g])
  have S: "filter (\<lambda>c. \<not> truthy (chunkError c)) ?results = map ?g (succeededIndices rt textChunks)"
    unfolding results by (rule partition_results[OF ne g])
  from run show "calls = textChunks" by (simp add: uploadChunks_def Let_def)
  from run show "totalChunks report = length textChunks"
    by (auto simp: uploadChunks_def Let_def)
  from run have "successfulChunks report =
      Some (length (filter (\<lambda>c. \<not> truthy (chunkError c)) ?results))"
    by (auto simp: uploadChunks_def Let_def simp del: length_filter_map)
  then show "successfulChunks report = Some (length textChunks - length (failedIndices rt textChunks))"
    unfolding S by (simp add: length_succeededIndices)
  from run have "failedChunks report =
      (if length (filter (\<lambda>c. truthy (chunkError c)) ?results) > 0
       then Some (filter (\<lambda>c. truthy (chunkError c)) ?results) else None)"
    by (auto simp: uploadChunks_def Let_def simp del: length_filter_map)
  then show "failedChunks report =
           (if failedIndices rt textChunks = [] then None
            else Some (map ?g (failedIndices rt textChunks)))"
    unfolding F by simp
qed

lemma uploadChunks_store:
  assumes run: "uploadChunks rt d file textChunks = (report, d', calls)"
  shows "\<exists>new. contextOrEmpty d' = contextOrEmpty d @ new \<and>
           length new = length textChunks - length (failedIndices rt textChunks) \<and>
           mset (map (\<lambda>item. (content item, embedding item)) new)
             = mset (map (\<lambda>i. (textChunks ! i, embeddedVector rt textChunks i)) (succeededIndices rt textChunks))"
proof -
  let ?f = "\<lambda>i. snd (uploadChunk rt file (length textChunks) i (textChunks ! i))"
  let ?new = "concat (map (\<lambda>i. case ?f i of None \<Rightarrow> [] | Some item \<Rightarrow> [item])
                          (completionOrder rt (length textChunks)))"
  from run have "d' = foldl (\<lambda>d i. case ?f i of None \<Rightarrow> d | Some item \<Rightarrow> appendContext d [item])
                        d (completionOrder rt (length textChunks))"
    by (auto simp: uploadChunks_def Let_def)
  then have "contextOrEmpty d' = contextOrEmpty d @ ?new"
    by (simp add: foldl_appendContext)
  moreover have "length ?new = length textChunks - length (failedIndices rt textChunks) \<and>
         mset (map (\<lambda>item. (content item, embedding item)) ?new)
           = mset (map (\<lambda>i. (textChunks ! i, embeddedVector rt textChunks i)) (succeededIndices rt textChunks))"
    by (rule new_items) (rule uploadChunk_item)
  ultimately show ?thesis by blast
qed

lemma scrapeChunks_report:
  assumes ne: "messagesNonEmpty rt textChunks"
    and run: "scrapeChunks rt d u t m len textChunks = (response, d', calls)"
  shows "calls = textChunks"
    and "urlTotalChunks response = length textChunks"
    and "urlSuccessfulChunks response = length textChunks - length (failedIndices rt textChunks)"
    and "urlFailedChunks response = length (failedIndices rt textChunks)"
proof -
  let ?g = "\<lambda>i. fst (scrapeChunk rt u t (length textChunks) i (textChunks ! i))"
  have results: "map (\<lambda>(index, chunk). fst (scrapeChunk rt u t (length textChunks) index chunk))
                     (enumerate 0 textChunks) = map ?g [0..<length textChunks]"
    by (simp add: enumerate_nth)
  have g: "\<And>i. i < length textChunks \<Longrightarrow> chunkError (?g i) =
              (case embedQuery rt i (textChunks ! i) of Inl err \<Rightarrow> Some (errorMessage err) | Inr v \<Rightarrow> None)"
    by (simp add: scrapeChunk_result)
  let ?results = "map (\<lambda>(index, chunk). fst (scrapeChunk rt u t (length textChunks) index chunk))
                     (enumerate 0 textChunks)"
  have F: "filter (\<lambda>c. truthy (chunkError c)) ?results = map ?g (failedIndices rt textChunks)"
    unfolding results by (rule partition_results[OF ne g])
  have S: "filter (\<lambda>c. \<not> truthy (chunkError c)) ?results = map ?g (succeededIndices rt textChunks)"
    unfolding results by (rule partition_results[OF ne g])
  from run show "calls = textChunks" by (simp add: scrapeChunks_def Let_def)
  from run show "urlTotalChunks response = length textChunks"
    by (auto simp: scrapeChunks_def Let_def)
  from run have "urlSuccessfulChunks response =
      length (filter (\<lambda>c. \<not> truthy (chunkError c)) ?results)"
    by (auto simp: scrapeChunks_def Let_def simp del: length_filter_map)
  then show "urlSuccessfulChunks response = length textChunks - length (failedIndices rt textChunks)"
    unfolding S by (simp add: length_succeededIndices)
  from run have "urlFailedChunks response =
      (if length (filter (\<lambda>c. truthy (chunkError c)) ?results) > 0
       then length (filter (\<lambda>c. truthy (chunkError c)) ?results) else 0)"
    by (auto simp: scrapeChunks_def Let_def simp del: length_filter_map)
  then show "urlFailedChunks response = length (failedIndices rt textChunks)"
    unfolding F by simp
qed

lemma scrapeChunks_store:
  assumes run: "scrapeChunks rt d u t m len textChunks = (response, d', calls)"
  shows "\<exists>new. contextOrEmpty d' = contextOrEmpty d @ new \<and>
           length new = length textChunks - length (failedIndices rt textChunks) \<and>
           mset (map (\<lambda>item. (content item, embedding item)) new)
             = mset (map (\<lambda>i. (textChunks ! i, embeddedVector rt textChunks i)) (succeededIndices rt textChunks))"
proof -
  let ?f = "\<lambda>i. snd (scrapeChunk rt u t (length textChunks) i (textChunks ! i))"
  let ?new = "concat (map (\<lambda>i. case ?f i of None \<Rightarrow> [] | Some item \<Rightarrow> [item])
                          (completionOrder rt (length textChunks)))"
  from run have "d' = appendContext d ?new"
    by (auto simp: scrapeChunks_def Let_def)
  then have "contextOrEmpty d' = contextOrEmpty d @ ?new"
    by simp
  moreover have "length ?new = length textChunks - length (failedIndices rt textChunks) \<and>
         mset (map (\<lambda>item. (content item, embedding item)) ?new)
           = mset (map (\<lambda>i. (textChunks ! i, embeddedVector rt textChunks i)) (succeededIndices rt textChunks))"
    by (rule new_items) (rule scrapeChunk_item)
  ultimately show ?thesis by blast
qed

lemma failed_entries:
  assumes "\<And>i c. chunkIndex (fst (g i c)) = i \<and>
             chunkError (fst (g i c)) =
               (case embedQuery rt i c of Inl err \<Rightarrow> Some (errorMessage err) | Inr v \<Rightarrow> None)"
  shows "map (\<lambda>c. (chunkIndex c, chunkError c)) (map (\<lambda>i. fst (g i (textChunks ! i))) (failedIndices rt textChunks))
           = map (\<lambda>i. (i, Some (failureMessage rt textChunks i))) (failedIndices rt textChunks)"
proof -
  have "\<And>i. i \<in> set (failedIndices rt textChunks) \<Longrightarrow>
          (chunkIndex (fst (g i (textChunks ! i))), chunkError (fst (g i (textChunks ! i))))
            = (i, Some (failureMessage rt textChunks i))"
    using assms
    by (auto simp: failedIndices_def embedFails_def failureMessage_def split: sum.splits)
  then show ?thesis by simp
qed

subsection \<open>Isolation of chunk failures (claim C4)\<close>

text \<open>
  Claim C4 as stated fails. Both handlers decide whether a chunk failed by the truthiness
  of the \<open>error\<close> string of its result. An embedding call that is rejected with an
  \<open>Error\<close> whose message is empty leaves the falsy \<open>error: ""\<close>: for a batch of one chunk
  whose embedding fails this way (\<open>N = 1\<close>, \<open>K = 1\<close>), the upload report has
  \<open>successfulChunks = 1\<close> and no \<open>failedChunks\<close>, the scrape response has
  \<open>successfulChunks = 1\<close> and \<open>failedChunks = 0\<close>, and nothing is stored. Also, the scrape
  response carries only the number of failed chunks: the responses for two different error
  messages are equal, so the error of a failed chunk is not in it.
\<close>

theorem ingestion_empty_error_message_counterexample:
  "embedFails emptyMessage [''hello''] 0 \<and>
   successfulChunks (fst (uploadChunks emptyMessage (fixtureDb []) fixtureFile [''hello''])) = Some 1 \<and>
   failedChunks (fst (uploadChunks emptyMessage (fixtureDb []) fixtureFile [''hello''])) = None \<and>
   contextOrEmpty (fst (snd (uploadChunks emptyMessage (fixtureDb []) fixtureFile [''hello'']))) = [] \<and>
   urlSuccessfulChunks (fst (scrapeChunks emptyMessage (fixtureDb []) ''https://example.com''
      ''Example'' ''static'' 5 [''hello''])) = 1 \<and>
   urlFailedChunks (fst (scrapeChunks emptyMessage (fixtureDb []) ''https://example.com''
      ''Example'' ''static'' 5 [''hello''])) = 0 \<and>
   fst (scrapeChunks (fixtureRuntime (\<lambda>i c. Inl (ErrorObject ''rate limit''))) (fixtureDb [])
      ''https://example.com'' ''Example'' ''static'' 5 [''hello''])
     = fst (scrapeChunks (fixtureRuntime (\<lambda>i c. Inl (ErrorObject ''invalid api key''))) (fixtureDb [])
      ''https://example.com'' ''Example'' ''static'' 5 [''hello''])"
  by (simp add: embedFails_def emptyMessage_def fixtureRuntime_def uploadChunks_def
      scrapeChunks_def uploadChunk_def scrapeChunk_def Let_def errorMessage_def truthy_def
      completionOrder_def)

text \<open>
  Claim C4, amended: take a batch of \<open>N\<close> chunks in which the embedding call fails for
  exactly \<open>K\<close> chunks, each failure with a non-empty error message. Then in both handlers
  an embedding is requested for every chunk; the upload report has \<open>totalChunks = N\<close>,
  \<open>successfulChunks = N - K\<close> and a \<open>failedChunks\<close> list that is absent when \<open>K = 0\<close>
  and otherwise holds exactly the failed chunks in index order, each with its index and its
  error message; the scrape response has \<open>totalChunks = N\<close>, \<open>successfulChunks = N - K\<close>
  and the number \<open>failedChunks = K\<close>; and in both handlers the collection \<open>context\<close> of the
  store grows by exactly \<open>N - K\<close> records, which are (in the order in which the embedding
  calls completed) the embedded chunks with their vectors.
\<close>

theorem ingestion_chunk_failures_isolated:
  assumes ne: "messagesNonEmpty rt textChunks"
    and up: "uploadChunks rt d file textChunks = (report, dUpload, callsUpload)"
    and sc: "scrapeChunks rt d pageUrl pageTitle method len textChunks
               = (response, dScrape, callsScrape)"
  shows "callsUpload = textChunks \<and> callsScrape = textChunks \<and>
    totalChunks report = length textChunks \<and>
    successfulChunks report = Some (length textChunks - length (failedIndices rt textChunks)) \<and>
    (case failedChunks report of
       None \<Rightarrow> failedIndices rt textChunks = []
     | Some failed \<Rightarrow> failed \<noteq> [] \<and>
         map (\<lambda>c. (chunkIndex c, chunkError c)) failed
           = map (\<lambda>i. (i, Some (failureMessage rt textChunks i))) (failedIndices rt textChunks)) \<and>
    urlTotalChunks response = length textChunks \<and>
    urlSuccessfulChunks response = length textChunks - length (failedIndices rt textChunks) \<and>
    urlFailedChunks response = length (failedIndices rt textChunks) \<and>
    (\<exists>new. contextOrEmpty dUpload = contextOrEmpty d @ new \<and>
       length new = length textChunks - length (failedIndices rt textChunks) \<and>
       mset (map (\<lambda>item. (content item, embedding item)) new)
         = mset (map (\<lambda>i. (textChunks ! i, embeddedVector rt textChunks i))
                     (succeededIndices rt textChunks))) \<and>
    (\<exists>new. contextOrEmpty dScrape = contextOrEmpty d @ new \<and>
       length new = length textChunks - length (failedIndices rt textChunks) \<and>
       mset (map (\<lambda>item. (content item, embedding item)) new)
         = mset (map (\<lambda>i. (textChunks ! i, embeddedVector rt textChunks i))
                     (succeededIndices rt textChunks)))"
proof -
  note u = uploadChunks_report[OF ne up]
  note s = scrapeChunks_report[OF ne sc]
  have f: "case failedChunks report of
       None \<Rightarrow> failedIndices rt textChunks = []
     | Some failed \<Rightarrow> failed \<noteq> [] \<and>
         map (\<lambda>c. (chunkIndex c, chunkError c)) failed
           = map (\<lambda>i. (i, Some (failureMessage rt textChunks i))) (failedIndices rt textChunks)"
    using failed_entries[of "uploadChunk rt file (length textChunks)" rt textChunks,
            OF uploadChunk_result]
    by (simp add: u(4))
  from u(1-3) s f uploadChunks_store[OF up] scrapeChunks_store[OF sc]
  show ?thesis by (intro conjI)
qed

lemma upt_0_3: "[0..<3] = [0, 1, 2]"
  by (simp add: upt_rec)

text \<open>
  The scenario of the specification: three chunks, the embedding of the chunk at index 1
  fails with the message \<open>rate limit\<close>. Both reports count 3 chunks, 2 successful and 1
  failed, the upload report records index 1 with its message, and both stores hold exactly 2
  new records.
\<close>

theorem ingestion_chunk_failures_isolated_witness:
  "messagesNonEmpty failingAt1 [''aa'', ''bb'', ''cc''] \<and>
   (\<exists>report dUpload response dScrape.
      uploadChunks failingAt1 (fixtureDb []) fixtureFile [''aa'', ''bb'', ''cc'']
        = (report, dUpload, [''aa'', ''bb'', ''cc'']) \<and>
      scrapeChunks failingAt1 (fixtureDb []) ''https://example.com'' ''Example'' ''static'' 6
          [''aa'', ''bb'', ''cc'']
        = (response, dScrape, [''aa'', ''bb'', ''cc'']) \<and>
      totalChunks report = 3 \<and> successfulChunks report = Some 2 \<and>
      (\<exists>failed. failedChunks report = Some failed \<and>
         map (\<lambda>c. (chunkIndex c, chunkError c)) failed = [(1, Some ''rate limit'')]) \<and>
      urlTotalChunks response = 3 \<and> urlSuccessfulChunks response = 2 \<and>
      urlFailedChunks response = 1 \<and>
      length (contextOrEmpty dUpload) = 2 \<and> length (contextOrEmpty dScrape) = 2)"
proof -
  let ?t = "[''aa'', ''bb'', ''cc'']"
  have fi: "failedIndices failingAt1 ?t = [1]"
    by (simp add: failedIndices_def embedFails_def failingAt1_def fixtureRuntime_def upt_0_3)
  have fm: "failureMessage failingAt1 ?t (Suc 0) = ''rate limit''"
    by (simp add: failureMessage_def failingAt1_def fixtureRuntime_def errorMessage_def)
  have ne: "messagesNonEmpty failingAt1 ?t"
    by (simp add: messagesNonEmpty_def fi fm)
  have e: "contextOrEmpty (fixtureDb []) = []"
    by simp
  obtain report dUpload callsUpload where
    up: "uploadChunks failingAt1 (fixtureDb []) fixtureFile ?t = (report, dUpload, callsUpload)"
    by (cases "uploadChunks failingAt1 (fixtureDb []) fixtureFile ?t") auto
  obtain response dScrape callsScrape where
    sc: "scrapeChunks failingAt1 (fixtureDb []) ''https://example.com'' ''Example'' ''static'' 6 ?t
           = (response, dScrape, callsScrape)"
    by (cases "scrapeChunks failingAt1 (fixtureDb []) ''https://example.com'' ''Example''
                 ''static'' 6 ?t") auto
  note c = ingestion_chunk_failures_isolated[OF ne up sc]
  from c have calls: "callsUpload = ?t" "callsScrape = ?t" by simp_all
  from c have counts: "totalChunks report = 3" "successfulChunks report = Some 2"
    "urlTotalChunks response = 3" "urlSuccessfulChunks response = 2"
    "urlFailedChunks response = 1"
    by (simp_all add: fi)
  from c have "case failedChunks report of
       None \<Rightarrow> failedIndices failingAt1 ?t = []
     | Some failed \<Rightarrow> failed \<noteq> [] \<and>
         map (\<lambda>c. (chunkIndex c, chunkError c)) failed
           = map (\<lambda>i. (i, Some (failureMessage failingAt1 ?t i))) (failedIndices failingAt1 ?t)"
    by blast
  then have failed: "\<exists>failed. failedChunks report = Some failed \<and>
         map (\<lambda>c. (chunkIndex c, chunkError c)) failed = [(1, Some ''rate limit'')]"
    by (cases "failedChunks report") (simp_all add: fi fm)
  from c obtain new where "contextOrEmpty dUpload = contextOrEmpty (fixtureDb []) @ new"
    "length new = length ?t - length (failedIndices failingAt1 ?t)" by blast
  then have lu: "length (contextOrEmpty dUpload) = 2" by (simp add: e fi)
  from c obtain new' where "contextOrEmpty dScrape = contextOrEmpty (fixtureDb []) @ new'"
    "length new' = length ?t - length (failedIndices failingAt1 ?t)" by blast
  then have ls: "length (contextOrEmpty dScrape) = 2" by (simp add: e fi)
  from up calls have up':
    "uploadChunks failingAt1 (fixtureDb []) fixtureFile ?t = (report, dUpload, ?t)"
    by simp
  from sc calls have sc':
    "scrapeChunks failingAt1 (fixtureDb []) ''https://example.com'' ''Example'' ''static'' 6 ?t
       = (response, dScrape, ?t)"
    by simp
  from ne up' sc' counts failed lu ls show ?thesis
    by (intro conjI exI[of _ report] exI[of _ dUpload] exI[of _ response] exI[of _ dScrape])
qed

subsection \<open>Empty and failed extraction (claim C3)\<close>

text \<open>
  The upload path does what claim C3 says: an empty or blank text and a text that begins
  with one of the two recognised error prefixes give a report with an error reason and
  \<open>totalChunks = 0\<close>, the store is unchanged and no embedding is requested.
\<close>

lemma processFile_extraction_failure:
  assumes "fileContent = [] \<or> jsTrim fileContent = [] \<or>
           startsWith fileContent ''[Error parsing PDF:'' \<or>
           startsWith fileContent ''[Error reading PDF file:''"
  shows "\<exists>report. processFile rt d file fileContent = Some (report, d, []) \<and>
           totalChunks report = 0 \<and> reportError report \<noteq> None \<and> reportChunks report = None"
  using assms by (auto simp: processFile_def errorReport_def)

text \<open>
  Claim C3 says that on both ingestion paths an empty extracted text gives a report with
  zero records and an error reason, and that no chunking or embedding is attempted. The
  scrape handler has no such check (a text shorter than 100 characters is only logged):
  for the empty scraped text it requests an embedding of the empty string and answers with
  success and \<open>totalChunks = 1\<close>, for every runtime and store. When that embedding call
  succeeds, \<open>successfulChunks\<close> is 1 and a record with empty content is stored.
\<close>

theorem scrapeIngest_empty_content_not_short_circuited:
  "(\<exists>response d'.
      scrapeIngest rt d (Some ''sk-test'') pageUrl pageTitle method []
        = Some (Inr response, d', [[]]) \<and>
      responseSuccess response \<and> urlTotalChunks response = 1) \<and>
   (\<exists>response d' item.
      scrapeIngest (fixtureRuntime (\<lambda>i c. Inr [1, 0])) (fixtureDb []) (Some ''sk-test'')
          ''https://example.com/blank'' [] ''static'' []
        = Some (Inr response, d', [[]]) \<and>
      urlSuccessfulChunks response = 1 \<and> contextOrEmpty d' = [item] \<and> content item = [])"
proof (intro conjI)
  show "\<exists>response d'.
      scrapeIngest rt d (Some ''sk-test'') pageUrl pageTitle method []
        = Some (Inr response, d', [[]]) \<and>
      responseSuccess response \<and> urlTotalChunks response = 1"
    by (simp add: scrapeIngest_def truthy_def estimateTokenCount_def scrapeChunks_def Let_def)
  show "\<exists>response d' item.
      scrapeIngest (fixtureRuntime (\<lambda>i c. Inr [1, 0])) (fixtureDb []) (Some ''sk-test'')
          ''https://example.com/blank'' [] ''static'' []
        = Some (Inr response, d', [[]]) \<and>
      urlSuccessfulChunks response = 1 \<and> contextOrEmpty d' = [item] \<and> content item = []"
    by (simp add: scrapeIngest_def truthy_def estimateTokenCount_def scrapeChunks_def Let_def
        scrapeChunk_def fixtureRuntime_def completionOrder_def)
qed

end
